theory Spec2Isabelle
  imports Main "HOL-Library.Word"
begin

unbundle bit_operations_syntax

section \<open>WCDB repair utility: the positioned-I/O file handle\<close>

text \<open>
  A shallow embedding of \<^verbatim>\<open>src/repair/utility/FileHandle.cpp\<close>. Every member function
  of \<^verbatim>\<open>WCDB::FileHandle\<close> becomes a function that takes the handle and the state of
  the world outside the handle and returns both updated. The operating system is not part
  of the repository: it is the environment, and is modelled as a script of answers, one
  per system call, together with the effect POSIX attaches to the answer.
\<close>

subsection \<open>Machine types (LP64)\<close>

text \<open>
  \<^verbatim>\<open>ssize_t\<close>, \<^verbatim>\<open>size_t\<close>, \<^verbatim>\<open>off_t\<close> and pointers are 64 bits wide. Arithmetic wraps;
  a signed reading is \<open>sint\<close>, signed comparison is \<open><s\<close>. The comparison
  \<^verbatim>\<open>got == size\<close> of an \<^verbatim>\<open>ssize_t\<close> with a \<^verbatim>\<open>size_t\<close> converts the left side to
  unsigned, which on words is plain equality. Descriptors and \<^verbatim>\<open>errno\<close> are C
  \<^verbatim>\<open>int\<close>s that are only compared, never computed with, and are modelled as \<open>int\<close>.
\<close>

type_synonym byte = "8 word"
type_synonym ssize_t = "64 word"
type_synonym size_t = "64 word"
type_synonym off_t = "64 word"
type_synonym addr = "64 word"

subsection \<open>The handle\<close>

text \<open>\<^verbatim>\<open>enum class Mode\<close> of the absent header: the three values the source names.\<close>

datatype Mode = Mode_None | Mode_ReadOnly | Mode_OverWrite

record FileHandle =
  path :: string
  m_fd :: int
  m_mode :: Mode

subsection \<open>Errors, as the collaborators receive them\<close>

datatype Code = IOError

text \<open>
  Modelled from the spec: the class \<^verbatim>\<open>Error\<close> of the absent \<^verbatim>\<open>WCDB/Error.hpp\<close>. The spec
  gives it a system error code, a kind tag, a message and a context map;
  \<^verbatim>\<open>setSystemCode(errno, Error::Code::IOError)\<close> stores the first two. A freshly
  constructed \<^verbatim>\<open>Error\<close> has an empty context map.
\<close>

record Error =
  code :: Code
  systemCode :: int
  message :: string
  infos :: "string \<rightharpoonup> string"

subsection \<open>The world outside the handle\<close>

datatype oflag = O_RDONLY | O_WRONLY | O_CREAT | O_TRUNC

datatype perm = S_IRWXU | S_IRGRP | S_IROTH

datatype whence = SEEK_SET | SEEK_CUR | SEEK_END

text \<open>
  A system call as the kernel sees it. Flags combined with \<^verbatim>\<open>|\<close> are a set of
  symbolic flag names; the integer \<^verbatim>\<open>0\<close> is the empty set. The two-argument
  \<^verbatim>\<open>::open\<close> passes no permission bits.
\<close>

datatype syscall =
    Sys_open string "oflag set" "perm set"
  | Sys_close int
  | Sys_lseek int off_t whence
  | Sys_pread int addr size_t off_t
  | Sys_pwrite int addr size_t off_t

text \<open>
  The kernel's answer to one call: \<open>Ret r\<close> is a call that succeeds with return value
  \<open>r\<close>; \<open>Err e\<close> is a call that fails, returning \<open>-1\<close> with \<^verbatim>\<open>errno\<close> set to \<open>e\<close>.
\<close>

datatype response = Ret "64 word" | Err int

definition EINTR :: int where
  "EINTR = 4"

text \<open>
  \<open>script\<close> holds the answers the kernel will give to the calls still to come; a call
  made when it is empty never returns (\<open>None\<close>). \<open>trace\<close> lists the calls issued so
  far. \<open>files fd\<close> is the content of the file open on \<open>fd\<close>, byte by offset,
  \<open>cursor fd\<close> its file position, \<open>memory\<close> the process's address space.
  \<open>notified\<close> is what \<^verbatim>\<open>Notifier::shared()\<close> has been handed, \<open>threaded\<close> the calling
  thread's error slot, \<open>fatals\<close> the messages of failed remedial assertions.
  \<open>strerror\<close> is libc's table of messages.
\<close>

record world =
  script :: "response list"
  trace :: "syscall list"
  errno :: int
  strerror :: "int \<Rightarrow> string"
  files :: "int \<Rightarrow> off_t \<Rightarrow> byte"
  cursor :: "int \<Rightarrow> off_t"
  memory :: "addr \<Rightarrow> byte"
  notified :: "Error list"
  threaded :: "Error option"
  fatals :: "string list"

text \<open>
  One trip into the kernel: log the call, take the next answer. A failing call sets
  \<^verbatim>\<open>errno\<close>; a succeeding one leaves it alone.
\<close>

definition kernel :: "syscall \<Rightarrow> world \<Rightarrow> (64 word \<times> world) option" where
  "kernel c w =
     (case script w of
        [] \<Rightarrow> None
      | Ret r # rs \<Rightarrow> Some (r, w\<lparr>script := rs, trace := trace w @ [c]\<rparr>)
      | Err e # rs \<Rightarrow> Some (- 1, w\<lparr>script := rs, trace := trace w @ [c], errno := e\<rparr>))"

text \<open>
  \<open>blit src s dst d n\<close> is \<open>dst\<close> after \<open>n\<close> bytes of \<open>src\<close> starting at \<open>s\<close> have
  been copied to \<open>d\<close> onwards.
\<close>

definition blit :: "(64 word \<Rightarrow> byte) \<Rightarrow> 64 word \<Rightarrow> (64 word \<Rightarrow> byte) \<Rightarrow> 64 word \<Rightarrow> 64 word
    \<Rightarrow> (64 word \<Rightarrow> byte)" where
  "blit src s dst d n = (\<lambda>a. if a - d < n then src (s + (a - d)) else dst a)"

definition sys_open :: "string \<Rightarrow> oflag set \<Rightarrow> perm set \<Rightarrow> world \<Rightarrow> (int \<times> world) option" where
  "sys_open p fl pm w =
     (case kernel (Sys_open p fl pm) w of
        None \<Rightarrow> None
      | Some (r, w') \<Rightarrow> Some (sint r, w'))"

definition sys_close :: "int \<Rightarrow> world \<Rightarrow> (int \<times> world) option" where
  "sys_close fd w =
     (case kernel (Sys_close fd) w of
        None \<Rightarrow> None
      | Some (r, w') \<Rightarrow> Some (sint r, w'))"

text \<open>A successful \<^verbatim>\<open>lseek\<close> returns the resulting offset, which is the new file position.\<close>

definition sys_lseek :: "int \<Rightarrow> off_t \<Rightarrow> whence \<Rightarrow> world \<Rightarrow> (off_t \<times> world) option" where
  "sys_lseek fd off wh w =
     (case kernel (Sys_lseek fd off wh) w of
        None \<Rightarrow> None
      | Some (r, w') \<Rightarrow>
          Some (r, if 0 \<le>s r then w'\<lparr>cursor := (cursor w')(fd := r)\<rparr> else w'))"

text \<open>
  A \<^verbatim>\<open>pread\<close> that returns \<open>r > 0\<close> has copied \<open>r\<close> bytes of the file, from
  \<open>offset\<close> on, to \<open>buffer\<close>; a \<^verbatim>\<open>pwrite\<close> the other way. Neither reads or moves the
  file position.
\<close>

definition sys_pread :: "int \<Rightarrow> addr \<Rightarrow> size_t \<Rightarrow> off_t \<Rightarrow> world \<Rightarrow> (ssize_t \<times> world) option" where
  "sys_pread fd buffer sz offset w =
     (case kernel (Sys_pread fd buffer sz offset) w of
        None \<Rightarrow> None
      | Some (r, w') \<Rightarrow>
          Some (r, if 0 <s r
                   then w'\<lparr>memory := blit (files w' fd) offset (memory w') buffer r\<rparr>
                   else w'))"

definition sys_pwrite :: "int \<Rightarrow> addr \<Rightarrow> size_t \<Rightarrow> off_t \<Rightarrow> world \<Rightarrow> (ssize_t \<times> world) option" where
  "sys_pwrite fd buffer sz offset w =
     (case kernel (Sys_pwrite fd buffer sz offset) w of
        None \<Rightarrow> None
      | Some (r, w') \<Rightarrow>
          Some (r, if 0 <s r
                   then w'\<lparr>files := (files w')(fd := blit (memory w') buffer (files w' fd) offset r)\<rparr>
                   else w'))"

subsection \<open>Assertions\<close>

text \<open>
  Modelled from the spec: the macros of the absent \<^verbatim>\<open>WCDB/Assertion.hpp\<close>.
  \<^verbatim>\<open>WCTInnerAssert(cond)\<close> guards a precondition whose violation is a caller error
  caught in strict (development) builds and compiled out otherwise: with \<open>strict\<close> set a
  failed inner assertion ends the process (\<open>Inl AssertionFailed\<close>), without it the
  macro is empty. \<^verbatim>\<open>WCTRemedialAssert(cond, message, remedial)\<close> reports \<open>message\<close>
  when \<open>cond\<close> fails and then runs \<open>remedial\<close>.
\<close>

datatype abort = AssertionFailed

definition fatal :: "string \<Rightarrow> world \<Rightarrow> world" where
  "fatal msg w = w\<lparr>fatals := fatals w @ [msg]\<rparr>"

subsection \<open>FileHandle.cpp\<close>

definition FileHandle_new :: "string \<Rightarrow> FileHandle" where
  "FileHandle_new p = \<lparr>path = p, m_fd = - 1, m_mode = Mode_None\<rparr>"

text \<open>
  The move constructor returns the new handle and what is left of \<open>other\<close>. The path
  of a handle never changes after construction: \<^verbatim>\<open>path\<close> is a constant member, so
  \<^verbatim>\<open>std::move(other.path)\<close> copies it and \<open>other\<close> keeps its path.
\<close>

definition FileHandle_move :: "FileHandle \<Rightarrow> FileHandle \<times> FileHandle" where
  "FileHandle_move other =
     (\<lparr>path = path other, m_fd = m_fd other, m_mode = m_mode other\<rparr>,
      other\<lparr>m_fd := - 1, m_mode := Mode_None\<rparr>)"

definition isOpened :: "FileHandle \<Rightarrow> bool" where
  "isOpened h = (m_fd h \<noteq> - 1)"

text \<open>\<^verbatim>\<open>operator=(FileHandle &&other)\<close>: returns \<^verbatim>\<open>*this\<close> and what is left of \<open>other\<close>.\<close>

definition FileHandle_assign :: "bool \<Rightarrow> FileHandle \<Rightarrow> FileHandle \<Rightarrow> abort + FileHandle \<times> FileHandle" where
  "FileHandle_assign strict this other =
     (if strict \<and> path this \<noteq> path other then Inl AssertionFailed
      else Inr (this\<lparr>m_fd := m_fd other\<rparr>, other\<lparr>m_fd := - 1\<rparr>))"

definition setThreadedError :: "FileHandle \<Rightarrow> world \<Rightarrow> world" where
  "setThreadedError h w =
     (let error = \<lparr>code = IOError, systemCode = errno w,
                   message = strerror w (errno w), infos = [''Path'' \<mapsto> path h]\<rparr>
      in w\<lparr>notified := notified w @ [error], threaded := Some error\<rparr>)"

text \<open>
  The tail of \<^verbatim>\<open>open\<close> after the \<^verbatim>\<open>switch\<close>: the statement
  \<^verbatim>\<open>m_fd = ::open(path.c_str(), flag)\<close> with \<^verbatim>\<open>flag\<close> still \<^verbatim>\<open>0\<close>, and the test of
  the descriptor.
\<close>

definition open_tail :: "FileHandle \<Rightarrow> world \<Rightarrow> (abort + bool \<times> FileHandle \<times> world) option" where
  "open_tail h w =
     (case sys_open (path h) {} {} w of
        None \<Rightarrow> None
      | Some (fd, w') \<Rightarrow>
          (let h' = h\<lparr>m_fd := fd\<rparr>
           in if m_fd h' = - 1 then Some (Inr (False, h', setThreadedError h' w'))
              else Some (Inr (True, h', w'))))"

definition FileHandle_open :: "bool \<Rightarrow> Mode \<Rightarrow> FileHandle \<Rightarrow> world
    \<Rightarrow> (abort + bool \<times> FileHandle \<times> world) option" where
  "FileHandle_open strict mode h w =
     (if strict \<and> mode = Mode_None then Some (Inl AssertionFailed)
      else if isOpened h then Some (Inr (True, h, fatal ''File already is opened'' w))
      else (case mode of
              Mode_OverWrite \<Rightarrow>
                (case sys_open (path h) {O_CREAT, O_WRONLY, O_TRUNC} {S_IRWXU, S_IRGRP, S_IROTH} w of
                   None \<Rightarrow> None
                 | Some (fd, w') \<Rightarrow> open_tail (h\<lparr>m_fd := fd\<rparr>) w')
            | Mode_ReadOnly \<Rightarrow>
                (case sys_open (path h) {O_RDONLY} {} w of
                   None \<Rightarrow> None
                 | Some (fd, w') \<Rightarrow> open_tail (h\<lparr>m_fd := fd\<rparr>) w')
            | Mode_None \<Rightarrow> Some (Inr (False, h, w))))"

definition FileHandle_close :: "bool \<Rightarrow> FileHandle \<Rightarrow> world \<Rightarrow> (abort + FileHandle \<times> world) option" where
  "FileHandle_close strict h w =
     (if strict \<and> \<not> isOpened h then Some (Inl AssertionFailed)
      else if m_fd h \<noteq> - 1 then
        (case sys_close (m_fd h) w of
           None \<Rightarrow> None
         | Some (r, w') \<Rightarrow> Some (Inr (h\<lparr>m_fd := - 1\<rparr>, w')))
      else Some (Inr (h, w)))"


definition FileHandle_size :: "bool \<Rightarrow> FileHandle \<Rightarrow> world \<Rightarrow> (abort + ssize_t \<times> world) option" where
  "FileHandle_size strict h w =
     (if strict \<and> m_fd h = - 1 then Some (Inl AssertionFailed)
      else (case sys_lseek (m_fd h) 0 SEEK_END w of
              None \<Rightarrow> None
            | Some (r, w') \<Rightarrow> Some (Inr (r, w'))))"

text \<open>
  The \<^verbatim>\<open>do ... while (got > 0)\<close> loop of \<^verbatim>\<open>read\<close>, one attempt per unfolding, with
  the loop variables as arguments. After an interruption the source sets \<^verbatim>\<open>got = 1\<close>
  and \<^verbatim>\<open>continue\<close>s, which jumps to the loop test and passes it: the next attempt runs
  with every other variable unchanged.
\<close>

function read_loop :: "FileHandle \<Rightarrow> addr \<Rightarrow> off_t \<Rightarrow> size_t \<Rightarrow> size_t \<Rightarrow> world
    \<Rightarrow> (ssize_t \<times> world) option" where
  "read_loop h buffer offset sz prior w =
     (case sys_pread (m_fd h) buffer sz offset w of
        None \<Rightarrow> None
      | Some (got, w') \<Rightarrow>
          if got = sz then Some (got + prior, w')
          else if got <s 0 then
            (if errno w' = EINTR then read_loop h buffer offset sz prior w'
             else Some (got + 0, setThreadedError h w'))
          else if 0 <s got then
            read_loop h (got + buffer) (offset + got) (sz - got) (prior + got) w'
          else Some (got + prior, w'))"
  by pat_completeness auto

termination read_loop
  by (relation "measure (\<lambda>(h, buffer, offset, sz, prior, w). length (script w))")
     (auto simp: sys_pread_def kernel_def split: list.splits response.splits if_splits)

definition FileHandle_read :: "bool \<Rightarrow> FileHandle \<Rightarrow> addr \<Rightarrow> off_t \<Rightarrow> size_t \<Rightarrow> world
    \<Rightarrow> (abort + ssize_t \<times> world) option" where
  "FileHandle_read strict h buffer offset sz w =
     (if strict \<and> m_fd h = - 1 then Some (Inl AssertionFailed)
      else (case read_loop h buffer offset sz 0 w of
              None \<Rightarrow> None
            | Some (r, w') \<Rightarrow> Some (Inr (r, w'))))"

text \<open>
  The loop of \<^verbatim>\<open>write\<close>. It differs from the loop of \<^verbatim>\<open>read\<close> in the system call
  and in the error branch, which leaves \<^verbatim>\<open>prior\<close> as it is.
\<close>

function write_loop :: "FileHandle \<Rightarrow> addr \<Rightarrow> off_t \<Rightarrow> size_t \<Rightarrow> ssize_t \<Rightarrow> world
    \<Rightarrow> (ssize_t \<times> world) option" where
  "write_loop h buffer offset sz prior w =
     (case sys_pwrite (m_fd h) buffer sz offset w of
        None \<Rightarrow> None
      | Some (wrote, w') \<Rightarrow>
          if wrote = sz then Some (wrote + prior, w')
          else if wrote <s 0 then
            (if errno w' = EINTR then write_loop h buffer offset sz prior w'
             else Some (wrote + prior, setThreadedError h w'))
          else if 0 <s wrote then
            write_loop h (wrote + buffer) (offset + wrote) (sz - wrote) (prior + wrote) w'
          else Some (wrote + prior, w'))"
  by pat_completeness auto

termination write_loop
  by (relation "measure (\<lambda>(h, buffer, offset, sz, prior, w). length (script w))")
     (auto simp: sys_pwrite_def kernel_def split: list.splits response.splits if_splits)

definition FileHandle_write :: "bool \<Rightarrow> FileHandle \<Rightarrow> addr \<Rightarrow> off_t \<Rightarrow> size_t \<Rightarrow> world
    \<Rightarrow> (abort + ssize_t \<times> world) option" where
  "FileHandle_write strict h buffer offset sz w =
     (if strict \<and> m_fd h = - 1 then Some (Inl AssertionFailed)
      else (case write_loop h buffer offset sz 0 w of
              None \<Rightarrow> None
            | Some (r, w') \<Rightarrow> Some (Inr (r, w'))))"

subsection \<open>The handles a program can hold\<close>


subsection \<open>Describing a run of attempts\<close>

text \<open>
  What the kernel does with the attempts of one \<^verbatim>\<open>read\<close> or \<^verbatim>\<open>write\<close> call before the
  attempt that ends it: an attempt either moves some bytes or is interrupted by a signal.
  \<open>answers\<close> is the script that makes the kernel behave so, \<open>moved\<close> the number of
  bytes moved in all. \<open>partial sz as\<close> says that every transfer in \<open>as\<close> moves at
  least one byte and leaves at least one of the \<open>sz\<close> requested still to move, so that
  none of these attempts ends the call.
\<close>

datatype attempt = Moves size_t | Interrupted

fun answers :: "attempt list \<Rightarrow> response list" where
  "answers [] = []"
| "answers (Moves g # as) = Ret g # answers as"
| "answers (Interrupted # as) = Err EINTR # answers as"

fun moved :: "attempt list \<Rightarrow> size_t" where
  "moved [] = 0"
| "moved (Moves g # as) = g + moved as"
| "moved (Interrupted # as) = moved as"

fun partial :: "size_t \<Rightarrow> attempt list \<Rightarrow> bool" where
  "partial sz [] = True"
| "partial sz (Moves g # as) = (0 < g \<and> g < sz \<and> partial (sz - g) as)"
| "partial sz (Interrupted # as) = partial sz as"

text \<open>The error \<^verbatim>\<open>setThreadedError\<close> builds when \<^verbatim>\<open>errno\<close> is \<open>e\<close>.\<close>

definition io_error :: "FileHandle \<Rightarrow> world \<Rightarrow> int \<Rightarrow> Error" where
  "io_error h w e =
     \<lparr>code = IOError, systemCode = e, message = strerror w e, infos = [''Path'' \<mapsto> path h]\<rparr>"

text \<open>The value a call returned, if it returned.\<close>

definition returned :: "(abort + 'a \<times> 'b) option \<Rightarrow> 'a option" where
  "returned x = (case x of Some (Inr (r, rest)) \<Rightarrow> Some r | _ \<Rightarrow> None)"

subsection \<open>Sample inputs\<close>

text \<open>
  A world in which nothing has happened yet: the kernel will give the answers \<open>rs\<close>,
  every file holds the byte \<open>i mod 256\<close> at offset \<open>i\<close>, memory is zeroed, every
  file position is \<open>0\<close>. \<open>db\<close> is a handle on \<^verbatim>\<open>/db\<close> that is open on descriptor 3.
\<close>

definition fresh :: "response list \<Rightarrow> world" where
  "fresh rs =
     \<lparr>script = rs, trace = [], errno = 0,
      strerror = (\<lambda>e. if e = 5 then ''Input/output error'' else ''Unknown error''),
      files = (\<lambda>fd off. ucast off), cursor = (\<lambda>fd. 0), memory = (\<lambda>a. 0),
      notified = [], threaded = None, fatals = []\<rparr>"

definition db :: FileHandle where
  "db = \<lparr>path = ''/db'', m_fd = 3, m_mode = Mode_None\<rparr>"

section \<open>Lemmas\<close>

declare read_loop.simps [simp del] write_loop.simps [simp del]

subsection \<open>Sizes that fit \<^verbatim>\<open>ssize_t\<close>\<close>

lemma sint_small:
  fixes x :: "64 word"
  assumes "unat x < 2 ^ 63"
  shows "sint x = int (unat x)"
proof -
  have "int (unat x) < int (2 ^ 63)"
    using assms by (rule iffD2 [OF of_nat_less_iff])
  then have lt: "uint x < 2 ^ 63"
    by (simp only: uint_nat of_nat_power of_nat_numeral)
  have "- (2 ^ 63) \<le> (0::int)"
    by simp
  then have ge: "- (2 ^ 63) \<le> uint x"
    by (rule order_trans) (rule uint_ge_0)
  have "signed_take_bit 63 (uint x) = uint x"
    using ge lt by (rule signed_take_bit_int_eq_self)
  then have "sint x = uint x"
    by (simp add: sint_uint)
  then show ?thesis
    by (simp only: uint_nat)
qed

lemma small_not_neg: "unat (x::64 word) < 2 ^ 63 \<Longrightarrow> \<not> x <s 0"
  by (simp only: word_sless_alt sint_small sint_0)

lemma small_pos: "unat (x::64 word) < 2 ^ 63 \<Longrightarrow> 0 <s x \<longleftrightarrow> x \<noteq> 0"
  by (simp only: word_sless_alt sint_small sint_0 of_nat_0_less_iff unat_gt_0)

lemma small_nonneg: "unat (x::64 word) < 2 ^ 63 \<Longrightarrow> 0 \<le>s x"
  by (simp only: word_sle_eq sint_small sint_0 of_nat_0_le_iff)

lemma small_not_minus1: "unat (x::64 word) < 2 ^ 63 \<Longrightarrow> x \<noteq> - 1"
proof
  assume "unat x < 2 ^ 63"
  then have n: "\<not> x <s 0"
    by (rule small_not_neg)
  assume "x = - 1"
  then have "x <s 0"
    by simp
  with n show False ..
qed

subsection \<open>Copying bytes\<close>

lemma blit_0: "blit src s dst d 0 = dst"
  by (rule ext) (simp add: blit_def)

lemma blit_blit:
  assumes nw: "unat g + unat n < 2 ^ 64"
  shows "blit src (s + g) (blit src s dst d g) (d + g) n = blit src s dst d (g + n)"
proof (rule ext)
  fix a
  define i where "i = a - d"
  have un: "unat (g + n) = unat g + unat n"
    using nw by (simp add: unat_add_lem [THEN iffD1])
  have a1: "a - (d + g) = i - g"
    by (simp add: i_def)
  have split: "i < g + n \<longleftrightarrow> i < g \<or> i - g < n"
  proof (cases "i < g")
    case True
    then have "unat i < unat g" by (simp add: word_less_nat_alt)
    then have "unat i < unat (g + n)" using un by simp
    then show ?thesis using True by (simp add: word_less_nat_alt)
  next
    case False
    then have ge: "g \<le> i" by simp
    then have "unat (i - g) = unat i - unat g" by (simp add: unat_sub)
    moreover have "unat g \<le> unat i" using ge by (simp add: word_le_nat_alt)
    ultimately show ?thesis using False un by (auto simp add: word_less_nat_alt)
  qed
  have s1: "s + g + (i - g) = s + i"
    by simp
  show "blit src (s + g) (blit src s dst d g) (d + g) n a = blit src s dst d (g + n) a"
    unfolding blit_def a1 i_def [symmetric] s1 using split by auto
qed

subsection \<open>One attempt of \<^verbatim>\<open>read\<close>\<close>

lemma sys_pread_Ret:
  "script w = Ret r # rs \<Longrightarrow>
   sys_pread fd b sz off w =
     Some (r, if 0 <s r
              then w\<lparr>script := rs, trace := trace w @ [Sys_pread fd b sz off],
                     memory := blit (files w fd) off (memory w) b r\<rparr>
              else w\<lparr>script := rs, trace := trace w @ [Sys_pread fd b sz off]\<rparr>)"
  by (simp add: sys_pread_def kernel_def)

lemma sys_pread_Err:
  "script w = Err e # rs \<Longrightarrow>
   sys_pread fd b sz off w =
     Some (- 1, w\<lparr>script := rs, trace := trace w @ [Sys_pread fd b sz off], errno := e\<rparr>)"
  by (simp add: sys_pread_def kernel_def)

lemma read_loop_Intr:
  "script w = Err EINTR # rs \<Longrightarrow> sz \<noteq> - 1 \<Longrightarrow>
   read_loop h b off sz p w =
     read_loop h b off sz p
       (w\<lparr>script := rs, trace := trace w @ [Sys_pread (m_fd h) b sz off], errno := EINTR\<rparr>)"
  by (subst read_loop.simps) (auto simp: sys_pread_Err)

lemma read_loop_Fail:
  "script w = Err e # rs \<Longrightarrow> e \<noteq> EINTR \<Longrightarrow> sz \<noteq> - 1 \<Longrightarrow>
   read_loop h b off sz p w =
     Some (- 1, setThreadedError h
       (w\<lparr>script := rs, trace := trace w @ [Sys_pread (m_fd h) b sz off], errno := e\<rparr>))"
  by (subst read_loop.simps) (auto simp: sys_pread_Err)

lemma read_loop_Moves:
  "script w = Ret g # rs \<Longrightarrow> g \<noteq> sz \<Longrightarrow> \<not> g <s 0 \<Longrightarrow> 0 <s g \<Longrightarrow>
   read_loop h b off sz p w =
     read_loop h (g + b) (off + g) (sz - g) (p + g)
       (w\<lparr>script := rs, trace := trace w @ [Sys_pread (m_fd h) b sz off],
          memory := blit (files w (m_fd h)) off (memory w) b g\<rparr>)"
  by (subst read_loop.simps) (simp add: sys_pread_Ret)

lemma read_loop_Done:
  "script w = Ret sz # rs \<Longrightarrow> unat sz < 2 ^ 63 \<Longrightarrow>
   read_loop h b off sz p w =
     Some (sz + p, w\<lparr>script := rs, trace := trace w @ [Sys_pread (m_fd h) b sz off],
                      memory := blit (files w (m_fd h)) off (memory w) b sz\<rparr>)"
  by (subst read_loop.simps) (auto simp: sys_pread_Ret small_pos blit_0)

lemma read_loop_Eof:
  "script w = Ret 0 # rs \<Longrightarrow> sz \<noteq> 0 \<Longrightarrow>
   read_loop h b off sz p w =
     Some (p, w\<lparr>script := rs, trace := trace w @ [Sys_pread (m_fd h) b sz off]\<rparr>)"
  by (subst read_loop.simps) (auto simp: sys_pread_Ret)

subsection \<open>Runs of attempts\<close>

lemma less_small: "g < sz \<Longrightarrow> unat (sz::64 word) < 2 ^ 63 \<Longrightarrow> unat g < 2 ^ 63"
  by (simp add: word_less_nat_alt)

lemma unat_sub_less: "g < sz \<Longrightarrow> unat (sz - g) = unat sz - unat (g::64 word)"
  by (rule unat_sub) (rule less_imp_le)

lemma sub_small: "g < sz \<Longrightarrow> unat (sz::64 word) < 2 ^ 63 \<Longrightarrow> unat (sz - g) < 2 ^ 63"
  by (simp add: unat_sub_less)

lemma sub_nowrap: "g < sz \<Longrightarrow> unat (g::64 word) + unat (sz - g) < 2 ^ 64"
proof -
  assume "g < sz"
  then have "unat g + unat (sz - g) = unat sz"
    by (simp add: unat_sub_less word_less_nat_alt)
  moreover have "unat sz < 2 ^ 64"
    using unsigned_less [of sz, where ?'a = nat] by simp
  ultimately show ?thesis by simp
qed


lemma partial_moved_le: "partial sz as \<Longrightarrow> moved as \<le> sz"
proof (induction as arbitrary: sz)
  case Nil
  then show ?case by simp
next
  case (Cons a as)
  show ?case
  proof (cases a)
    case Interrupted
    with Cons show ?thesis by simp
  next
    case (Moves g)
    with Cons.prems have g: "g < sz" and "partial (sz - g) as"
      by simp_all
    then have "moved as \<le> sz - g"
      using Cons.IH by simp
    then have "unat (moved as) \<le> unat sz - unat g"
      using g by (simp add: word_le_nat_alt unat_sub_less)
    moreover have gl: "unat g < unat sz"
      using g by (simp add: word_less_nat_alt)
    ultimately have le: "unat g + unat (moved as) \<le> unat sz"
      by simp
    moreover have "unat sz < 2 ^ 64"
      using unsigned_less [of sz, where ?'a = nat] by simp
    ultimately have "unat g + unat (moved as) < 2 ^ LENGTH(64)"
      by simp
    then have "unat (g + moved as) = unat g + unat (moved as)"
      by (rule unat_add_lem [THEN iffD1])
    with le show ?thesis
      using Moves by (simp add: word_le_nat_alt)
  qed
qed

lemma le_sub_small: "m \<le> sz \<Longrightarrow> unat (sz::64 word) < 2 ^ 63 \<Longrightarrow> unat (sz - m) < 2 ^ 63"
proof -
  assume "m \<le> sz" and s: "unat sz < 2 ^ 63"
  then have "unat (sz - m) = unat sz - unat m"
    by (simp add: unat_sub)
  with s show ?thesis
    by simp
qed

lemma le_sub_nowrap: "m \<le> sz \<Longrightarrow> unat (m::64 word) + unat (sz - m) < 2 ^ 64"
proof -
  assume le: "m \<le> sz"
  then have "unat (sz - m) = unat sz - unat m"
    by (simp add: unat_sub)
  moreover have "unat m \<le> unat sz"
    using le by (simp add: word_le_nat_alt)
  moreover have "unat sz < 2 ^ 64"
    using unsigned_less [of sz, where ?'a = nat] by simp
  ultimately show ?thesis
    by simp
qed

lemma blit_whole:
  "m \<le> sz \<Longrightarrow> blit src (s + m) (blit src s dst d m) (d + m) (sz - m) = blit src s dst d sz"
  using blit_blit [OF le_sub_nowrap, of m sz src s dst d] by simp

text \<open>
  The attempts that do not end the call only advance the loop variables: the loop goes on
  from the buffer, offset, size and total they leave, in a world that differs in the bytes
  copied so far.
\<close>

lemma read_loop_prefix:
  "partial sz as \<Longrightarrow> unat sz < 2 ^ 63 \<Longrightarrow> script w = answers as @ tail \<Longrightarrow>
   \<exists>w1. read_loop h b off sz p w =
          read_loop h (b + moved as) (off + moved as) (sz - moved as) (p + moved as) w1 \<and>
        script w1 = tail \<and>
        memory w1 = blit (files w (m_fd h)) off (memory w) b (moved as) \<and>
        files w1 = files w \<and> cursor w1 = cursor w \<and> strerror w1 = strerror w \<and>
        notified w1 = notified w \<and> threaded w1 = threaded w \<and> fatals w1 = fatals w"
proof (induction as arbitrary: sz b off p w)
  case Nil
  then show ?case
    by (intro exI [of _ w]) (simp add: blit_0)
next
  case (Cons a as)
  show ?case
  proof (cases a)
    case Interrupted
    let ?w = "w\<lparr>script := answers as @ tail,
                  trace := trace w @ [Sys_pread (m_fd h) b sz off], errno := EINTR\<rparr>"
    from Cons.prems Interrupted
    have step: "read_loop h b off sz p w = read_loop h b off sz p ?w"
      by (simp add: read_loop_Intr small_not_minus1)
    from Cons.prems Interrupted
    have "\<exists>w1. read_loop h b off sz p ?w =
          read_loop h (b + moved as) (off + moved as) (sz - moved as) (p + moved as) w1 \<and>
        script w1 = tail \<and>
        memory w1 = blit (files ?w (m_fd h)) off (memory ?w) b (moved as) \<and>
        files w1 = files ?w \<and> cursor w1 = cursor ?w \<and> strerror w1 = strerror ?w \<and>
        notified w1 = notified ?w \<and> threaded w1 = threaded ?w \<and> fatals w1 = fatals ?w"
      by (intro Cons.IH) simp_all
    with step Interrupted show ?thesis
      by simp
  next
    case (Moves g)
    with Cons.prems have g: "0 < g" "g < sz" and rest: "partial (sz - g) as"
      by simp_all
    let ?w = "w\<lparr>script := answers as @ tail,
                  trace := trace w @ [Sys_pread (m_fd h) b sz off],
                  memory := blit (files w (m_fd h)) off (memory w) b g\<rparr>"
    have gs: "unat g < 2 ^ 63"
      using g(2) Cons.prems(2) by (rule less_small)
    have "g \<noteq> 0"
      using g(1) by simp
    then have pos: "0 <s g" and nneg: "\<not> g <s 0"
      using gs by (simp_all add: small_pos small_not_neg)
    have ne: "g \<noteq> sz"
      using g(2) by simp
    have scr: "script w = Ret g # answers as @ tail"
      using Cons.prems(3) Moves by simp
    have step: "read_loop h b off sz p w = read_loop h (g + b) (off + g) (sz - g) (p + g) ?w"
      using scr ne nneg pos by (simp add: read_loop_Moves)
    have "\<exists>w1. read_loop h (g + b) (off + g) (sz - g) (p + g) ?w =
          read_loop h (g + b + moved as) (off + g + moved as) (sz - g - moved as) (p + g + moved as) w1 \<and>
        script w1 = tail \<and>
        memory w1 = blit (files ?w (m_fd h)) (off + g) (memory ?w) (g + b) (moved as) \<and>
        files w1 = files ?w \<and> cursor w1 = cursor ?w \<and> strerror w1 = strerror ?w \<and>
        notified w1 = notified ?w \<and> threaded w1 = threaded ?w \<and> fatals w1 = fatals ?w"
      using rest sub_small [OF g(2) Cons.prems(2)] by (intro Cons.IH) simp_all
    then obtain w1 where
      run: "read_loop h (g + b) (off + g) (sz - g) (p + g) ?w =
          read_loop h (g + b + moved as) (off + g + moved as) (sz - g - moved as) (p + g + moved as) w1"
      and mem: "memory w1 = blit (files w (m_fd h)) (off + g) (blit (files w (m_fd h)) off (memory w) b g) (g + b) (moved as)"
      and others: "script w1 = tail" "files w1 = files w" "cursor w1 = cursor w"
        "strerror w1 = strerror w" "notified w1 = notified w" "threaded w1 = threaded w"
        "fatals w1 = fatals w"
      by auto
    have "moved as \<le> sz - g"
      using rest by (rule partial_moved_le)
    then have "unat (moved as) \<le> unat sz - unat g"
      using g(2) by (simp add: word_le_nat_alt unat_sub_less)
    moreover have "unat g < unat sz"
      using g(2) by (simp add: word_less_nat_alt)
    moreover have "unat sz < 2 ^ 64"
      using unsigned_less [of sz, where ?'a = nat] by simp
    ultimately have nw: "unat g + unat (moved as) < 2 ^ 64"
      by simp
    have args: "g + b + moved as = b + moved (a # as)" "off + g + moved as = off + moved (a # as)"
      "sz - g - moved as = sz - moved (a # as)" "p + g + moved as = p + moved (a # as)"
      using Moves by simp_all
    have "memory w1 = blit (files w (m_fd h)) off (memory w) b (moved (a # as))"
      using blit_blit [OF nw, of "files w (m_fd h)" off "memory w" b] mem Moves
      by (simp add: add.commute)
    with step run others show ?thesis
      unfolding args by auto
  qed
qed

subsection \<open>The loop of \<^verbatim>\<open>write\<close>\<close>

lemma sys_pwrite_Ret:
  "script w = Ret r # rs \<Longrightarrow>
   sys_pwrite fd b sz off w =
     Some (r, if 0 <s r
              then w\<lparr>script := rs, trace := trace w @ [Sys_pwrite fd b sz off],
                     files := (files w)(fd := blit (memory w) b (files w fd) off r)\<rparr>
              else w\<lparr>script := rs, trace := trace w @ [Sys_pwrite fd b sz off]\<rparr>)"
  by (simp add: sys_pwrite_def kernel_def)

lemma sys_pwrite_Err:
  "script w = Err e # rs \<Longrightarrow>
   sys_pwrite fd b sz off w =
     Some (- 1, w\<lparr>script := rs, trace := trace w @ [Sys_pwrite fd b sz off], errno := e\<rparr>)"
  by (simp add: sys_pwrite_def kernel_def)

lemma write_loop_Intr:
  "script w = Err EINTR # rs \<Longrightarrow> sz \<noteq> - 1 \<Longrightarrow>
   write_loop h b off sz p w =
     write_loop h b off sz p
       (w\<lparr>script := rs, trace := trace w @ [Sys_pwrite (m_fd h) b sz off], errno := EINTR\<rparr>)"
  by (subst write_loop.simps) (auto simp: sys_pwrite_Err)

lemma write_loop_Fail:
  "script w = Err e # rs \<Longrightarrow> e \<noteq> EINTR \<Longrightarrow> sz \<noteq> - 1 \<Longrightarrow>
   write_loop h b off sz p w =
     Some (p - 1, setThreadedError h
       (w\<lparr>script := rs, trace := trace w @ [Sys_pwrite (m_fd h) b sz off], errno := e\<rparr>))"
  by (subst write_loop.simps) (auto simp: sys_pwrite_Err)

lemma write_loop_Moves:
  "script w = Ret g # rs \<Longrightarrow> g \<noteq> sz \<Longrightarrow> \<not> g <s 0 \<Longrightarrow> 0 <s g \<Longrightarrow>
   write_loop h b off sz p w =
     write_loop h (g + b) (off + g) (sz - g) (p + g)
       (w\<lparr>script := rs, trace := trace w @ [Sys_pwrite (m_fd h) b sz off],
          files := (files w)(m_fd h := blit (memory w) b (files w (m_fd h)) off g)\<rparr>)"
  by (subst write_loop.simps) (simp add: sys_pwrite_Ret)

lemma write_loop_Done:
  "script w = Ret sz # rs \<Longrightarrow> unat sz < 2 ^ 63 \<Longrightarrow>
   write_loop h b off sz p w =
     Some (sz + p, w\<lparr>script := rs, trace := trace w @ [Sys_pwrite (m_fd h) b sz off],
                      files := (files w)(m_fd h := blit (memory w) b (files w (m_fd h)) off sz)\<rparr>)"
  by (subst write_loop.simps) (auto simp: sys_pwrite_Ret small_pos blit_0)

lemma write_loop_prefix:
  "partial sz as \<Longrightarrow> unat sz < 2 ^ 63 \<Longrightarrow> script w = answers as @ tail \<Longrightarrow>
   \<exists>w1. write_loop h b off sz p w =
          write_loop h (b + moved as) (off + moved as) (sz - moved as) (p + moved as) w1 \<and>
        script w1 = tail \<and>
        files w1 = (files w)(m_fd h := blit (memory w) b (files w (m_fd h)) off (moved as)) \<and>
        memory w1 = memory w \<and> cursor w1 = cursor w \<and> strerror w1 = strerror w \<and>
        notified w1 = notified w \<and> threaded w1 = threaded w \<and> fatals w1 = fatals w"
proof (induction as arbitrary: sz b off p w)
  case Nil
  then show ?case
    by (intro exI [of _ w]) (simp add: blit_0)
next
  case (Cons a as)
  show ?case
  proof (cases a)
    case Interrupted
    let ?w = "w\<lparr>script := answers as @ tail,
                  trace := trace w @ [Sys_pwrite (m_fd h) b sz off], errno := EINTR\<rparr>"
    from Cons.prems Interrupted
    have step: "write_loop h b off sz p w = write_loop h b off sz p ?w"
      by (simp add: write_loop_Intr small_not_minus1)
    from Cons.prems Interrupted
    have "\<exists>w1. write_loop h b off sz p ?w =
          write_loop h (b + moved as) (off + moved as) (sz - moved as) (p + moved as) w1 \<and>
        script w1 = tail \<and>
        files w1 = (files ?w)(m_fd h := blit (memory ?w) b (files ?w (m_fd h)) off (moved as)) \<and>
        memory w1 = memory ?w \<and> cursor w1 = cursor ?w \<and> strerror w1 = strerror ?w \<and>
        notified w1 = notified ?w \<and> threaded w1 = threaded ?w \<and> fatals w1 = fatals ?w"
      by (intro Cons.IH) simp_all
    then obtain w1 where
      run: "write_loop h b off sz p ?w =
          write_loop h (b + moved as) (off + moved as) (sz - moved as) (p + moved as) w1"
      and fil: "files w1 = (files w)(m_fd h := blit (memory w) b (files w (m_fd h)) off (moved as))"
      and others: "script w1 = tail" "memory w1 = memory w" "cursor w1 = cursor w"
        "strerror w1 = strerror w" "notified w1 = notified w" "threaded w1 = threaded w"
        "fatals w1 = fatals w"
      by auto
    have "moved (a # as) = moved as"
      using Interrupted by simp
    with step run fil others show ?thesis
      by (intro exI [of _ w1]) (simp del: fun_upd_apply)
  next
    case (Moves g)
    with Cons.prems have g: "0 < g" "g < sz" and rest: "partial (sz - g) as"
      by simp_all
    let ?F = "blit (memory w) b (files w (m_fd h)) off g"
    let ?w = "w\<lparr>script := answers as @ tail,
                  trace := trace w @ [Sys_pwrite (m_fd h) b sz off],
                  files := (files w)(m_fd h := ?F)\<rparr>"
    have gs: "unat g < 2 ^ 63"
      using g(2) Cons.prems(2) by (rule less_small)
    have "g \<noteq> 0"
      using g(1) by simp
    then have pos: "0 <s g" and nneg: "\<not> g <s 0"
      using gs by (simp_all add: small_pos small_not_neg)
    have ne: "g \<noteq> sz"
      using g(2) by simp
    have scr: "script w = Ret g # answers as @ tail"
      using Cons.prems(3) Moves by simp
    have step: "write_loop h b off sz p w = write_loop h (g + b) (off + g) (sz - g) (p + g) ?w"
      using scr ne nneg pos by (simp add: write_loop_Moves)
    have "\<exists>w1. write_loop h (g + b) (off + g) (sz - g) (p + g) ?w =
          write_loop h (g + b + moved as) (off + g + moved as) (sz - g - moved as) (p + g + moved as) w1 \<and>
        script w1 = tail \<and>
        files w1 = (files ?w)(m_fd h := blit (memory ?w) (g + b) (files ?w (m_fd h)) (off + g) (moved as)) \<and>
        memory w1 = memory ?w \<and> cursor w1 = cursor ?w \<and> strerror w1 = strerror ?w \<and>
        notified w1 = notified ?w \<and> threaded w1 = threaded ?w \<and> fatals w1 = fatals ?w"
      using rest sub_small [OF g(2) Cons.prems(2)] by (intro Cons.IH) simp_all
    then obtain w1 where
      run: "write_loop h (g + b) (off + g) (sz - g) (p + g) ?w =
          write_loop h (g + b + moved as) (off + g + moved as) (sz - g - moved as) (p + g + moved as) w1"
      and fil: "files w1 = (files w)(m_fd h := blit (memory w) (g + b) ?F (off + g) (moved as))"
      and others: "script w1 = tail" "memory w1 = memory w" "cursor w1 = cursor w"
        "strerror w1 = strerror w" "notified w1 = notified w" "threaded w1 = threaded w"
        "fatals w1 = fatals w"
      by auto
    have "moved as \<le> sz - g"
      using rest by (rule partial_moved_le)
    then have "unat (moved as) \<le> unat sz - unat g"
      using g(2) by (simp add: word_le_nat_alt unat_sub_less)
    moreover have "unat g < unat sz"
      using g(2) by (simp add: word_less_nat_alt)
    moreover have "unat sz < 2 ^ 64"
      using unsigned_less [of sz, where ?'a = nat] by simp
    ultimately have nw: "unat g + unat (moved as) < 2 ^ 64"
      by simp
    have args: "g + b + moved as = b + moved (a # as)" "off + g + moved as = off + moved (a # as)"
      "sz - g - moved as = sz - moved (a # as)" "p + g + moved as = p + moved (a # as)"
      using Moves by simp_all
    have "blit (memory w) (g + b) ?F (off + g) (moved as) =
        blit (memory w) b (files w (m_fd h)) off (moved (a # as))"
      using blit_blit [OF nw, of "memory w" b "files w (m_fd h)" off] Moves
      by (simp add: add.commute)
    with fil have "files w1 =
        (files w)(m_fd h := blit (memory w) b (files w (m_fd h)) off (moved (a # as)))"
      by simp
    with step run others show ?thesis
      unfolding args by (intro exI [of _ w1]) (simp del: fun_upd_apply)
  qed
qed

subsection \<open>What the loops return\<close>

lemma setThreadedError_eq:
  "setThreadedError h w =
     w\<lparr>notified := notified w @ [io_error h w (errno w)],
       threaded := Some (io_error h w (errno w))\<rparr>"
  by (simp add: setThreadedError_def io_error_def Let_def)

lemma read_loop_completes:
  assumes "partial sz as" and "unat sz < 2 ^ 63"
    and "script w = answers as @ Ret (sz - moved as) # rest"
  shows "\<exists>w'. read_loop h b off sz p w = Some (sz + p, w') \<and>
      script w' = rest \<and>
      memory w' = blit (files w (m_fd h)) off (memory w) b sz \<and>
      files w' = files w \<and> cursor w' = cursor w \<and>
      notified w' = notified w \<and> threaded w' = threaded w"
proof -
  let ?m = "moved as"
  from read_loop_prefix [OF assms, of h b off p]
  obtain w1 where
    run: "read_loop h b off sz p w = read_loop h (b + ?m) (off + ?m) (sz - ?m) (p + ?m) w1"
    and w1: "script w1 = Ret (sz - ?m) # rest"
      "memory w1 = blit (files w (m_fd h)) off (memory w) b ?m"
      "files w1 = files w" "cursor w1 = cursor w"
      "notified w1 = notified w" "threaded w1 = threaded w"
    by auto
  have le: "?m \<le> sz"
    using assms(1) by (rule partial_moved_le)
  then have "unat (sz - ?m) < 2 ^ 63"
    using assms(2) by (rule le_sub_small)
  with w1(1)
  have "read_loop h (b + ?m) (off + ?m) (sz - ?m) (p + ?m) w1 =
      Some (sz - ?m + (p + ?m),
        w1\<lparr>script := rest,
           trace := trace w1 @ [Sys_pread (m_fd h) (b + ?m) (sz - ?m) (off + ?m)],
           memory := blit (files w1 (m_fd h)) (off + ?m) (memory w1) (b + ?m) (sz - ?m)\<rparr>)"
    by (rule read_loop_Done)
  moreover have "blit (files w (m_fd h)) (off + ?m)
      (blit (files w (m_fd h)) off (memory w) b ?m) (b + ?m) (sz - ?m) =
      blit (files w (m_fd h)) off (memory w) b sz"
    using le by (rule blit_whole)
  ultimately show ?thesis
    using run w1 by simp
qed

lemma read_loop_fails:
  assumes "partial sz as" and "unat sz < 2 ^ 63" and "e \<noteq> EINTR"
    and "script w = answers as @ Err e # rest"
  shows "\<exists>w'. read_loop h b off sz p w = Some (- 1, w') \<and>
      script w' = rest \<and> errno w' = e \<and>
      notified w' = notified w @ [io_error h w e] \<and>
      threaded w' = Some (io_error h w e) \<and>
      memory w' = blit (files w (m_fd h)) off (memory w) b (moved as) \<and>
      files w' = files w \<and> cursor w' = cursor w"
proof -
  from read_loop_prefix [OF assms(1,2,4), of h b off p]
  obtain w1 where
    run: "read_loop h b off sz p w =
        read_loop h (b + moved as) (off + moved as) (sz - moved as) (p + moved as) w1"
    and w1: "script w1 = Err e # rest" "strerror w1 = strerror w" "notified w1 = notified w"
      "memory w1 = blit (files w (m_fd h)) off (memory w) b (moved as)"
      "files w1 = files w" "cursor w1 = cursor w"
    by auto
  have "moved as \<le> sz"
    using assms(1) by (rule partial_moved_le)
  then have "unat (sz - moved as) < 2 ^ 63"
    using assms(2) by (rule le_sub_small)
  then have "sz - moved as \<noteq> - 1"
    by (rule small_not_minus1)
  with w1(1) assms(3)
  have "read_loop h (b + moved as) (off + moved as) (sz - moved as) (p + moved as) w1 =
      Some (- 1, setThreadedError h
        (w1\<lparr>script := rest,
            trace := trace w1 @ [Sys_pread (m_fd h) (b + moved as) (sz - moved as) (off + moved as)],
            errno := e\<rparr>))"
    by (rule read_loop_Fail)
  with run w1 show ?thesis
    by (simp add: setThreadedError_eq io_error_def)
qed

lemma write_loop_completes:
  assumes "partial sz as" and "unat sz < 2 ^ 63"
    and "script w = answers as @ Ret (sz - moved as) # rest"
  shows "\<exists>w'. write_loop h b off sz p w = Some (sz + p, w') \<and>
      script w' = rest \<and>
      files w' = (files w)(m_fd h := blit (memory w) b (files w (m_fd h)) off sz) \<and>
      memory w' = memory w \<and> cursor w' = cursor w \<and>
      notified w' = notified w \<and> threaded w' = threaded w"
proof -
  let ?m = "moved as"
  from write_loop_prefix [OF assms, of h b off p]
  obtain w1 where
    run: "write_loop h b off sz p w = write_loop h (b + ?m) (off + ?m) (sz - ?m) (p + ?m) w1"
    and w1: "script w1 = Ret (sz - ?m) # rest"
      "files w1 = (files w)(m_fd h := blit (memory w) b (files w (m_fd h)) off ?m)"
      "memory w1 = memory w" "cursor w1 = cursor w"
      "notified w1 = notified w" "threaded w1 = threaded w"
    by auto
  have le: "?m \<le> sz"
    using assms(1) by (rule partial_moved_le)
  then have small: "unat (sz - ?m) < 2 ^ 63"
    using assms(2) by (rule le_sub_small)
  let ?W = "w1\<lparr>script := rest,
           trace := trace w1 @ [Sys_pwrite (m_fd h) (b + ?m) (sz - ?m) (off + ?m)],
           files := (files w1)(m_fd h :=
             blit (memory w1) (b + ?m) (files w1 (m_fd h)) (off + ?m) (sz - ?m))\<rparr>"
  from w1(1) small
  have "write_loop h (b + ?m) (off + ?m) (sz - ?m) (p + ?m) w1 = Some (sz - ?m + (p + ?m), ?W)"
    by (rule write_loop_Done)
  with run have res: "write_loop h b off sz p w = Some (sz + p, ?W)"
    by simp
  have whole: "blit (memory w) (b + ?m)
      (blit (memory w) b (files w (m_fd h)) off ?m) (off + ?m) (sz - ?m) =
      blit (memory w) b (files w (m_fd h)) off sz"
    using le by (rule blit_whole)
  have "files ?W = (files w)(m_fd h := blit (memory w) b (files w (m_fd h)) off sz)"
    using w1 whole by simp
  moreover have "script ?W = rest" "memory ?W = memory w" "cursor ?W = cursor w"
    "notified ?W = notified w" "threaded ?W = threaded w"
    using w1 by simp_all
  ultimately show ?thesis
    using res by blast
qed

lemma write_loop_fails:
  assumes "partial sz as" and "unat sz < 2 ^ 63" and "e \<noteq> EINTR"
    and "script w = answers as @ Err e # rest"
  shows "\<exists>w'. write_loop h b off sz p w = Some (p + moved as - 1, w') \<and>
      script w' = rest \<and> errno w' = e \<and>
      notified w' = notified w @ [io_error h w e] \<and>
      threaded w' = Some (io_error h w e) \<and>
      files w' = (files w)(m_fd h := blit (memory w) b (files w (m_fd h)) off (moved as)) \<and>
      memory w' = memory w \<and> cursor w' = cursor w"
proof -
  let ?m = "moved as"
  from write_loop_prefix [OF assms(1,2,4), of h b off p]
  obtain w1 where
    run: "write_loop h b off sz p w = write_loop h (b + ?m) (off + ?m) (sz - ?m) (p + ?m) w1"
    and w1: "script w1 = Err e # rest" "strerror w1 = strerror w" "notified w1 = notified w"
      "files w1 = (files w)(m_fd h := blit (memory w) b (files w (m_fd h)) off ?m)"
      "memory w1 = memory w" "cursor w1 = cursor w"
    by auto
  have "?m \<le> sz"
    using assms(1) by (rule partial_moved_le)
  then have "unat (sz - ?m) < 2 ^ 63"
    using assms(2) by (rule le_sub_small)
  then have "sz - ?m \<noteq> - 1"
    by (rule small_not_minus1)
  let ?W = "setThreadedError h
        (w1\<lparr>script := rest,
            trace := trace w1 @ [Sys_pwrite (m_fd h) (b + ?m) (sz - ?m) (off + ?m)],
            errno := e\<rparr>)"
  from w1(1) assms(3) \<open>sz - ?m \<noteq> - 1\<close>
  have "write_loop h (b + ?m) (off + ?m) (sz - ?m) (p + ?m) w1 = Some (p + ?m - 1, ?W)"
    by (rule write_loop_Fail)
  with run have res: "write_loop h b off sz p w = Some (p + ?m - 1, ?W)"
    by simp
  have "script ?W = rest" "errno ?W = e" "notified ?W = notified w @ [io_error h w e]"
    "threaded ?W = Some (io_error h w e)"
    "files ?W = (files w)(m_fd h := blit (memory w) b (files w (m_fd h)) off ?m)"
    "memory ?W = memory w" "cursor ?W = cursor w"
    using w1 by (simp_all add: setThreadedError_eq io_error_def)
  with res show ?thesis
    by blast
qed

subsection \<open>Opening and closing\<close>

lemma sys_open_Ret:
  "script w = Ret r # rs \<Longrightarrow>
   sys_open p fl pm w = Some (sint r, w\<lparr>script := rs, trace := trace w @ [Sys_open p fl pm]\<rparr>)"
  by (simp add: sys_open_def kernel_def)

lemma sys_open_Err:
  "script w = Err e # rs \<Longrightarrow>
   sys_open p fl pm w =
     Some (- 1, w\<lparr>script := rs, trace := trace w @ [Sys_open p fl pm], errno := e\<rparr>)"
  by (simp add: sys_open_def kernel_def)

lemma sys_lseek_Ret:
  "script w = Ret r # rs \<Longrightarrow> 0 \<le>s r \<Longrightarrow>
   sys_lseek fd off wh w =
     Some (r, w\<lparr>script := rs, trace := trace w @ [Sys_lseek fd off wh],
                cursor := (cursor w)(fd := r)\<rparr>)"
  by (simp add: sys_lseek_def kernel_def)

text \<open>
  Whatever the kernel answers, \<^verbatim>\<open>open\<close> on a closed handle makes two \<^verbatim>\<open>::open\<close> calls,
  the second with no flags, reports the outcome of the second, and leaves \<open>m_mode\<close> as it
  was.
\<close>

lemma open_closed:
  assumes "\<not> isOpened h" and "mode \<noteq> Mode_None" and "script w = r1 # r2 # rs"
  shows "\<exists>ok h' w'. FileHandle_open strict mode h w = Some (Inr (ok, h', w')) \<and>
      trace w' = trace w @
        [Sys_open (path h) (if mode = Mode_OverWrite then {O_CREAT, O_WRONLY, O_TRUNC} else {O_RDONLY})
           (if mode = Mode_OverWrite then {S_IRWXU, S_IRGRP, S_IROTH} else {}),
         Sys_open (path h) {} {}] \<and>
      script w' = rs \<and> ok = isOpened h' \<and> path h' = path h \<and> m_mode h' = m_mode h"
  using assms
  by (cases mode; cases r1; cases r2)
    (auto simp: FileHandle_open_def open_tail_def sys_open_def kernel_def Let_def
      setThreadedError_eq isOpened_def)

lemma close_opened:
  "isOpened h \<Longrightarrow> script w = r # rs \<Longrightarrow>
   \<exists>w'. FileHandle_close strict h w = Some (Inr (h\<lparr>m_fd := - 1\<rparr>, w')) \<and>
        trace w' = trace w @ [Sys_close (m_fd h)] \<and> script w' = rs"
  by (cases r) (simp_all add: FileHandle_close_def isOpened_def sys_close_def kernel_def)

subsection \<open>Reachable handles\<close>






section \<open>The specification's claims\<close>

subsection \<open>C1: one descriptor-acquiring call per open\<close>

text \<open>
  Claim C1: for every mode in {ReadOnly, OverWrite} and every closed handle, \<^verbatim>\<open>open(mode)\<close>
  issues exactly one descriptor-acquiring system call, with flags derived from the mode, never
  a second one with empty flags, and the handle holds exactly one live descriptor afterwards.

  The source does not do this. After the \<^verbatim>\<open>switch\<close> has stored the descriptor of the
  mode-specific call, the statement \<^verbatim>\<open>m_fd = ::open(path.c_str(), flag)\<close> runs with
  \<^verbatim>\<open>flag\<close> still \<^verbatim>\<open>0\<close>. Opening \<^verbatim>\<open>/db\<close> read-only when the kernel hands out
  descriptors 3 and 4: two calls are issued, the second with no flags, the handle keeps 4,
  and 3 is neither kept nor closed.
\<close>

theorem open_acquires_twice:
  "FileHandle_open strict Mode_ReadOnly (FileHandle_new ''/db'') (fresh [Ret 3, Ret 4]) =
     Some (Inr (True, \<lparr>path = ''/db'', m_fd = 4, m_mode = Mode_None\<rparr>,
       (fresh [])\<lparr>trace := [Sys_open ''/db'' {O_RDONLY} {}, Sys_open ''/db'' {} {}]\<rparr>))"
  by (simp add: FileHandle_open_def FileHandle_new_def isOpened_def open_tail_def
      sys_open_Ret fresh_def)

subsection \<open>C2: a read that fails part-way\<close>

text \<open>
  Claim C2, as amended: for every open handle and every size that fits \<^verbatim>\<open>ssize_t\<close>, when
  \<^verbatim>\<open>read(buffer, offset, size)\<close> meets an error other than an interruption on one of its
  \<^verbatim>\<open>pread\<close> attempts, after any number of partial transfers and interruptions, it
  captures and publishes exactly one \<^verbatim>\<open>Error\<close> and returns \<open>-1\<close>: the error branch sets
  \<^verbatim>\<open>prior = 0\<close>, so the bytes transferred earlier in the call are not reported.
\<close>

theorem read_error_returns_minus_one:
  assumes "isOpened h" and "unat sz < 2 ^ 63" and "partial sz as" and "e \<noteq> EINTR"
    and "script w = answers as @ Err e # rest"
  shows "\<exists>w'. FileHandle_read strict h b off sz w = Some (Inr (- 1, w')) \<and>
      notified w' = notified w @ [io_error h w e] \<and>
      threaded w' = Some (io_error h w e) \<and>
      script w' = rest"
proof -
  from read_loop_fails [OF assms(3,2,4,5), of h b off 0]
  obtain w' where "read_loop h b off sz 0 w = Some (- 1, w')"
    and "script w' = rest" "notified w' = notified w @ [io_error h w e]"
      "threaded w' = Some (io_error h w e)"
    by auto
  with assms(1) show ?thesis
    by (simp add: FileHandle_read_def isOpened_def)
qed

text \<open>
  The theorem at work: 3 bytes, an interruption, 2 more bytes, then \<^verbatim>\<open>EIO\<close> (5), with one
  answer left over for whatever call comes next.
\<close>

theorem read_error_returns_minus_one_witness:
  "\<exists>w'. FileHandle_read False db 100 0 8 (fresh [Ret 3, Err 4, Ret 2, Err 5, Ret 9]) =
        Some (Inr (- 1, w')) \<and>
      notified w' = [\<lparr>code = IOError, systemCode = 5, message = ''Input/output error'',
                      infos = [''Path'' \<mapsto> ''/db'']\<rparr>] \<and>
      threaded w' = Some \<lparr>code = IOError, systemCode = 5, message = ''Input/output error'',
                           infos = [''Path'' \<mapsto> ''/db'']\<rparr> \<and>
      script w' = [Ret 9]"
  using read_error_returns_minus_one
    [of db 8 "[Moves 3, Interrupted, Moves 2]" 5 "fresh [Ret 3, Err 4, Ret 2, Err 5, Ret 9]"
      "[Ret 9]" False 100 0]
  by (simp add: db_def fresh_def isOpened_def EINTR_def io_error_def)

text \<open>
  The sentence as the specification has it asks for the 3 bytes already transferred, and for a
  result that is never negative. A read of 8 bytes that gets 3 and then fails returns \<open>-1\<close>.
\<close>

theorem read_error_drops_partial_total:
  "returned (FileHandle_read False db 100 0 8 (fresh [Ret 3, Err 5])) = Some (- 1)"
  by code_simp

subsection \<open>C3: a write that fails part-way\<close>

text \<open>
  Claim C3: \<^verbatim>\<open>write(buffer, offset, size)\<close> accumulates partial writes over its attempts;
  on an error other than an interruption it captures and publishes an \<^verbatim>\<open>Error\<close> and returns
  exactly the number of bytes written before the failing attempt; on full success it returns
  \<^verbatim>\<open>size\<close>.

  The source returns \<^verbatim>\<open>wrote + prior\<close> with \<^verbatim>\<open>wrote\<close> still \<open>-1\<close> from the failed
  \<^verbatim>\<open>pwrite\<close>: one less than the bytes written. A write of 8 bytes that writes 3 and then
  fails with \<^verbatim>\<open>EIO\<close> returns 2.
\<close>

theorem write_error_off_by_one:
  "returned (FileHandle_write False db 100 0 8 (fresh [Ret 3, Err 5])) = Some 2"
  by code_simp

subsection \<open>C4: the mode after open\<close>

text \<open>
  Claim C4: if \<^verbatim>\<open>open(mode)\<close> on a closed handle succeeds, the handle stores the descriptor
  and its mode field equals the requested mode; if it fails, an error is captured and
  published, the mode stays None and the handle stays closed.

  No statement of \<^verbatim>\<open>open\<close> assigns \<^verbatim>\<open>m_mode\<close>. A successful \<^verbatim>\<open>open(OverWrite)\<close> leaves
  the mode at None, so the destructor's test \<^verbatim>\<open>m_mode != Mode::OverWrite\<close> can never fail.
\<close>

theorem open_leaves_mode_unset:
  "FileHandle_open strict Mode_OverWrite (FileHandle_new ''/db'') (fresh [Ret 3, Ret 4]) =
     Some (Inr (True, \<lparr>path = ''/db'', m_fd = 4, m_mode = Mode_None\<rparr>,
       (fresh [])\<lparr>trace :=
         [Sys_open ''/db'' {O_CREAT, O_WRONLY, O_TRUNC} {S_IRWXU, S_IRGRP, S_IROTH},
          Sys_open ''/db'' {} {}]\<rparr>))"
  by (simp add: FileHandle_open_def FileHandle_new_def isOpened_def open_tail_def
      sys_open_Ret fresh_def)

subsection \<open>C5: move assignment\<close>



text \<open>
  \<^verbatim>\<open>operator=\<close> itself has no statement for \<open>m_mode\<close>. On a source handle in mode
  ReadOnly, which no member function produces, the modes would stay where they were.
\<close>

lemma assign_ignores_mode:
  "FileHandle_assign strict \<lparr>path = ''/db'', m_fd = - 1, m_mode = Mode_None\<rparr>
       \<lparr>path = ''/db'', m_fd = 3, m_mode = Mode_ReadOnly\<rparr> =
     Inr (\<lparr>path = ''/db'', m_fd = 3, m_mode = Mode_None\<rparr>,
          \<lparr>path = ''/db'', m_fd = - 1, m_mode = Mode_ReadOnly\<rparr>)"
  by (simp add: FileHandle_assign_def)

text \<open>The move constructor by itself, on any handle.\<close>

lemma move_construct_transfers:
  "FileHandle_move a = (b, a') \<Longrightarrow>
   m_fd b = m_fd a \<and> m_mode b = m_mode a \<and> m_fd a' = - 1 \<and> m_mode a' = Mode_None"
  by (auto simp: FileHandle_move_def)

subsection \<open>C6: the length of the file\<close>

text \<open>
  Claim C6, as amended: for every open handle, \<^verbatim>\<open>size()\<close> issues one
  \<^verbatim>\<open>lseek(m_fd, 0, SEEK_END)\<close> and returns its result, the offset of the end of the file,
  which is the file's length and does not depend on where the file position was; the call
  leaves the descriptor's file position at that offset.
\<close>

theorem size_seeks_to_end:
  assumes "isOpened h" and "script w = Ret r # rs" and "0 \<le>s r"
  shows "FileHandle_size strict h w =
     Some (Inr (r, w\<lparr>script := rs, trace := trace w @ [Sys_lseek (m_fd h) 0 SEEK_END],
                       cursor := (cursor w)(m_fd h := r)\<rparr>))"
  using assms by (simp add: FileHandle_size_def isOpened_def sys_lseek_Ret)

theorem size_seeks_to_end_witness:
  "FileHandle_size True db (fresh [Ret 5]) =
     Some (Inr (5, (fresh [])\<lparr>trace := [Sys_lseek 3 0 SEEK_END],
                              cursor := (cursor (fresh []))(3 := 5)\<rparr>))"
  using size_seeks_to_end [of db "fresh [Ret 5]" 5 "[]" True]
  by (simp add: db_def fresh_def isOpened_def small_nonneg)

text \<open>
  The sentence as the specification has it wants the file position left alone. On a file of
  5 bytes with the position at 0, \<^verbatim>\<open>size()\<close> returns 5 and the position is 5.
\<close>

theorem size_moves_cursor:
  "FileHandle_size False db (fresh [Ret 5]) =
     Some (Inr (5, (fresh [])\<lparr>trace := [Sys_lseek 3 0 SEEK_END],
                              cursor := (cursor (fresh []))(3 := 5)\<rparr>)) \<and>
   cursor ((fresh [])\<lparr>trace := [Sys_lseek 3 0 SEEK_END],
                       cursor := (cursor (fresh []))(3 := 5)\<rparr>) 3 \<noteq> cursor (fresh [Ret 5]) 3"
  by (simp add: FileHandle_size_def sys_lseek_def kernel_def db_def fresh_def small_nonneg)

subsection \<open>C7: interruptions are invisible\<close>

text \<open>
  Claim C7: for every open handle and every \<^verbatim>\<open>read\<close> or \<^verbatim>\<open>write\<close> call in which exactly
  one attempt is interrupted by a signal and all the others succeed, the call returns the full
  requested count with the right data, no error is captured or published, and no byte moved by
  an earlier attempt of the call is lost or counted twice.

  The attempts before the last are \<open>as\<close>: partial transfers and one interruption, in any
  order; the last attempt moves what is left. The call then returns \<open>sz\<close>, and the bytes
  that were moved are those a single transfer of \<open>sz\<close> bytes from \<open>off\<close> would have moved,
  to the same places. The size is one that fits \<^verbatim>\<open>ssize_t\<close>.
\<close>

theorem interruption_transparent:
  assumes "isOpened h" and "unat sz < 2 ^ 63" and "partial sz as"
    and "count_list as Interrupted = 1"
    and "script w = answers as @ Ret (sz - moved as) # rest"
  shows "(\<exists>w'. FileHandle_read strict h b off sz w = Some (Inr (sz, w')) \<and>
            memory w' = blit (files w (m_fd h)) off (memory w) b sz \<and>
            files w' = files w \<and>
            notified w' = notified w \<and> threaded w' = threaded w \<and> script w' = rest) \<and>
         (\<exists>w'. FileHandle_write strict h b off sz w = Some (Inr (sz, w')) \<and>
            files w' = (files w)(m_fd h := blit (memory w) b (files w (m_fd h)) off sz) \<and>
            memory w' = memory w \<and>
            notified w' = notified w \<and> threaded w' = threaded w \<and> script w' = rest)"
proof
  from read_loop_completes [OF assms(3,2,5), of h b off 0]
  obtain w' where "read_loop h b off sz 0 w = Some (sz, w')"
    and "memory w' = blit (files w (m_fd h)) off (memory w) b sz" "files w' = files w"
      "notified w' = notified w" "threaded w' = threaded w" "script w' = rest"
    by auto
  with assms(1)
  show "\<exists>w'. FileHandle_read strict h b off sz w = Some (Inr (sz, w')) \<and>
            memory w' = blit (files w (m_fd h)) off (memory w) b sz \<and>
            files w' = files w \<and>
            notified w' = notified w \<and> threaded w' = threaded w \<and> script w' = rest"
    by (simp add: FileHandle_read_def isOpened_def)
next
  from write_loop_completes [OF assms(3,2,5), of h b off 0]
  obtain w' where "write_loop h b off sz 0 w = Some (sz, w')"
    and "files w' = (files w)(m_fd h := blit (memory w) b (files w (m_fd h)) off sz)"
      "memory w' = memory w"
      "notified w' = notified w" "threaded w' = threaded w" "script w' = rest"
    by auto
  with assms(1)
  show "\<exists>w'. FileHandle_write strict h b off sz w = Some (Inr (sz, w')) \<and>
            files w' = (files w)(m_fd h := blit (memory w) b (files w (m_fd h)) off sz) \<and>
            memory w' = memory w \<and>
            notified w' = notified w \<and> threaded w' = threaded w \<and> script w' = rest"
    by (simp add: FileHandle_write_def isOpened_def del: fun_upd_apply)
qed

text \<open>
  The theorem at work on 8 bytes at offset 0, buffer at address 100: 3 bytes, an
  interruption, the remaining 5. The read fills addresses 100 to 107 with the file's bytes 0
  to 7 and nothing else; the write puts the 8 zero bytes of the buffer into the file.
\<close>

theorem interruption_transparent_witness:
  "(\<exists>w'. FileHandle_read False db 100 0 8 (fresh [Ret 3, Err 4, Ret 5]) = Some (Inr (8, w')) \<and>
      map (memory w') [99, 100, 101, 102, 103, 104, 105, 106, 107, 108] =
        [0, 0, 1, 2, 3, 4, 5, 6, 7, 0] \<and>
      notified w' = [] \<and> threaded w' = None \<and> script w' = []) \<and>
   (\<exists>w'. FileHandle_write False db 100 0 8 (fresh [Ret 3, Err 4, Ret 5]) = Some (Inr (8, w')) \<and>
      map (files w' 3) [0, 7, 8] = [0, 0, 8] \<and>
      notified w' = [] \<and> threaded w' = None \<and> script w' = [])"
  using interruption_transparent
    [of db 8 "[Moves 3, Interrupted]" "fresh [Ret 3, Err 4, Ret 5]" "[]" False 100 0]
  by (auto simp: db_def fresh_def isOpened_def EINTR_def blit_def)

subsection \<open>C8: every failing call is reported\<close>

text \<open>
  Claim C8: every failing OS call inside \<^verbatim>\<open>open\<close>, \<^verbatim>\<open>read\<close> or \<^verbatim>\<open>write\<close>, other than an
  interruption, produces exactly one \<^verbatim>\<open>Error\<close> carrying the OS error code, the kind I/O
  failure, the OS's message for the code and the handle's path, which is published and
  stored in the calling thread's slot.

  A failing \<^verbatim>\<open>pread\<close> or \<^verbatim>\<open>pwrite\<close> is reported so (\<open>read_loop_fails\<close>,
  \<open>write_loop_fails\<close>), and so is a failure of the last \<^verbatim>\<open>::open\<close>. The failure of the
  mode-specific \<^verbatim>\<open>::open\<close> is not: the second call overwrites its result. Opening a file
  for overwriting that the process may read but not write: the first call fails with
  \<^verbatim>\<open>EACCES\<close> (13), the second succeeds, \<^verbatim>\<open>open\<close> returns true with a read-only descriptor,
  and nothing is published or stored.
\<close>

theorem open_swallows_first_failure:
  "FileHandle_open strict Mode_OverWrite (FileHandle_new ''/db'') (fresh [Err 13, Ret 4]) =
     Some (Inr (True, \<lparr>path = ''/db'', m_fd = 4, m_mode = Mode_None\<rparr>,
       (fresh [])\<lparr>trace :=
         [Sys_open ''/db'' {O_CREAT, O_WRONLY, O_TRUNC} {S_IRWXU, S_IRGRP, S_IROTH},
          Sys_open ''/db'' {} {}],
         errno := 13, notified := [], threaded := None\<rparr>))"
  by (simp add: FileHandle_open_def FileHandle_new_def isOpened_def open_tail_def
      sys_open_Ret sys_open_Err fresh_def)

subsection \<open>C9: closing a closed handle\<close>

text \<open>
  Claim C9, as amended: for every handle that is already closed (after a close, after a
  failed open, or never opened), \<^verbatim>\<open>close()\<close> issues no OS call, so no descriptor is released
  twice and the invalid descriptor never reaches \<^verbatim>\<open>::close\<close>; where inner assertions are
  compiled out the call returns with the handle and the world unchanged, and in a strict
  build the inner assertion \<^verbatim>\<open>isOpened()\<close> fails.
\<close>

theorem close_closed_handle:
  assumes "\<not> isOpened h"
  shows "FileHandle_close strict h w =
     (if strict then Some (Inl AssertionFailed) else Some (Inr (h, w)))"
  using assms by (simp add: FileHandle_close_def isOpened_def)

theorem close_closed_handle_witness:
  "FileHandle_close False (FileHandle_new ''/db'') (fresh [Ret 0]) =
     Some (Inr (FileHandle_new ''/db'', fresh [Ret 0]))"
  using close_closed_handle [of "FileHandle_new ''/db''" False "fresh [Ret 0]"]
  by (simp add: FileHandle_new_def isOpened_def)

text \<open>
  The sentence as the specification has it says the call does not crash. In a strict build,
  closing a handle that was never opened trips the assertion.
\<close>

theorem close_closed_strict_aborts:
  "FileHandle_close True (FileHandle_new ''/db'') (fresh [Ret 0]) = Some (Inl AssertionFailed)"
  by (simp add: FileHandle_close_def FileHandle_new_def isOpened_def)

text \<open>
  The handles the claim lists are closed ones: a handle is closed after \<^verbatim>\<open>close\<close> and after
  a failed \<^verbatim>\<open>open\<close>; and without inner assertions a second \<^verbatim>\<open>close\<close> changes nothing.
\<close>

lemma new_handle_closed: "\<not> isOpened (FileHandle_new p)"
  by (simp add: isOpened_def FileHandle_new_def)

lemma close_twice:
  assumes "FileHandle_close False h w = Some (Inr (h', w'))"
  shows "FileHandle_close False h' w' = Some (Inr (h', w'))"
  using assms
  by (auto simp: FileHandle_close_def isOpened_def split: if_splits option.splits)

lemma failed_open_closed:
  assumes "FileHandle_open strict mode h w = Some (Inr (False, h', w'))" and "\<not> isOpened h"
  shows "\<not> isOpened h'"
  using assms
  by (auto simp: FileHandle_open_def open_tail_def isOpened_def Let_def
      split: if_splits option.splits Mode.splits)

subsection \<open>C10: opening an open handle\<close>

text \<open>
  Claim C10, as amended: for every handle that is already open, \<^verbatim>\<open>open(mode)\<close> with mode
  ReadOnly or OverWrite, and with mode None too where inner assertions are compiled out,
  returns true, leaves the descriptor and the mode as they are and makes no OS call; the
  remedial assertion records its message. In a strict build \<^verbatim>\<open>open(None)\<close> fails the inner
  assertion \<^verbatim>\<open>mode != Mode::None\<close> before the handle is looked at.
\<close>

theorem open_opened_handle:
  assumes "isOpened h" and "mode \<noteq> Mode_None \<or> \<not> strict"
  shows "FileHandle_open strict mode h w =
     Some (Inr (True, h, w\<lparr>fatals := fatals w @ [''File already is opened'']\<rparr>))"
  using assms by (auto simp: FileHandle_open_def fatal_def)

theorem open_opened_handle_witness:
  "FileHandle_open True Mode_OverWrite db (fresh [Ret 7, Ret 8]) =
     Some (Inr (True, db, (fresh [Ret 7, Ret 8])\<lparr>fatals := [''File already is opened'']\<rparr>))"
  using open_opened_handle [of db Mode_OverWrite True "fresh [Ret 7, Ret 8]"]
  by (simp add: db_def fresh_def isOpened_def)

text \<open>
  The sentence as the specification has it covers any mode. In a strict build, \<^verbatim>\<open>open(None)\<close>
  on an open handle does not return.
\<close>

theorem open_none_strict_aborts:
  "FileHandle_open True Mode_None db (fresh [Ret 7, Ret 8]) = Some (Inl AssertionFailed)"
  by (simp add: FileHandle_open_def)

end
